theory Spec2Isabelle
  imports Complex_Main "HOL-Library.AList"
begin

section \<open>Values, dates and errors\<close>

text \<open>
  A cell of a pandas frame is a float64. The model keeps the structure of the IEEE values
  (finite, the two infinities, NaN, which pandas also uses for a missing observation) and
  takes the finite values as exact rationals: rounding, overflow and the sign of zero are
  left out.
\<close>

datatype fl = Fin rat | PInf | NInf | NaN

fun isnan :: "fl \<Rightarrow> bool" where
  "isnan NaN = True"
| "isnan _ = False"

fun sign_of :: "fl \<Rightarrow> rat" where
  "sign_of (Fin a) = sgn a"
| "sign_of PInf = 1"
| "sign_of NInf = - 1"
| "sign_of NaN = 0"

definition inf_of_sign :: "rat \<Rightarrow> fl" where
  "inf_of_sign s = (if s = 0 then NaN else if 0 < s then PInf else NInf)"

fun fadd :: "fl \<Rightarrow> fl \<Rightarrow> fl" where
  "fadd NaN _ = NaN"
| "fadd _ NaN = NaN"
| "fadd (Fin a) (Fin b) = Fin (a + b)"
| "fadd PInf NInf = NaN"
| "fadd NInf PInf = NaN"
| "fadd PInf _ = PInf"
| "fadd _ PInf = PInf"
| "fadd NInf _ = NInf"
| "fadd _ NInf = NInf"

fun fmul :: "fl \<Rightarrow> fl \<Rightarrow> fl" where
  "fmul NaN _ = NaN"
| "fmul _ NaN = NaN"
| "fmul (Fin a) (Fin b) = Fin (a * b)"
| "fmul x y = inf_of_sign (sign_of x * sign_of y)"

fun fdiv :: "fl \<Rightarrow> fl \<Rightarrow> fl" where
  "fdiv NaN _ = NaN"
| "fdiv _ NaN = NaN"
| "fdiv (Fin a) (Fin b) = (if b = 0 then inf_of_sign (sgn a) else Fin (a / b))"
| "fdiv (Fin a) _ = Fin 0"
| "fdiv x (Fin b) = inf_of_sign (sign_of x * (if b < 0 then - 1 else 1))"
| "fdiv _ _ = NaN"

text \<open>A running sum in iteration order, as \<^verbatim>\<open>acc += x\<close> in a loop starting from \<^verbatim>\<open>0.\<close>.\<close>

definition fsum :: "fl list \<Rightarrow> fl" where
  "fsum xs = foldl fadd (Fin 0) xs"

text \<open>
  A date is its proleptic Gregorian ordinal (\<^verbatim>\<open>date.toordinal()\<close>); ordinal 1 is a
  Monday and \<^verbatim>\<open>weekday()\<close> counts from Monday = 0. Timestamps carry no time of day.
\<close>

type_synonym date = int
type_synonym ticker = string

definition weekday :: "date \<Rightarrow> int" where
  "weekday d = (d + 6) mod 7"

text \<open>\<^verbatim>\<open>d + BDay(1)\<close> and \<^verbatim>\<open>d - BDay(1)\<close> of pandas.\<close>

definition next_bday :: "date \<Rightarrow> date" where
  "next_bday d = (let w = weekday d in
     if w > 4 then d + (7 - w) else if w + 1 \<le> 4 then d + 1 else d + 3)"


datatype error = ValueError | KeyError | IndexError | TypeError | AttributeError
  | ZeroDivisionError

text \<open>
  A membership window \<^verbatim>\<open>(st, ed)\<close>; \<open>None\<close> is Python's \<^verbatim>\<open>None\<close>. The dictionary of
  tickers is the list of its items in insertion order.
\<close>

type_synonym window = "date option \<times> date option"
type_synonym components = "(ticker \<times> window) list"

section \<open>USStockMarketMetrics: the membership map\<close>










section \<open>Metrics: the panel and its reconciliation\<close>

text \<open>
  A frame shares one date index; a column gives the cell of every date, and only the
  cells at dates of the index mean anything. The index is increasing and without
  repetition, as the feed delivers it, so that the label slice \<^verbatim>\<open>.loc[a:b]\<close> selects the
  dates \<open>d\<close> with \<open>a \<le> d \<le> b\<close>, an open end for \<^verbatim>\<open>None\<close>.
\<close>

type_synonym column = "date \<Rightarrow> fl"
type_synonym series = "(date \<times> fl) list"

record panel =
  p_index :: "date list"
  p_close :: "ticker \<Rightarrow> column"
  p_volume :: "ticker \<Rightarrow> column"

text \<open>
  What the external collaborators answer for the \<^verbatim>\<open>start\<close> of the constructor: the bulk
  download, the \<^verbatim>\<open>info\<close> dictionary and the share history of every ticker (a series,
  possibly empty, of integer counts), the rows \<^verbatim>\<open>(date, close, volume)\<close> of the cached file
  or of the secondary provider, and the adjusted close of an index.
\<close>

record feed =
  download_index :: "date list"
  download_close :: "ticker \<Rightarrow> column"
  download_volume :: "ticker \<Rightarrow> column"
  info_dividendYield :: "ticker \<Rightarrow> rat option"
  info_sharesOutstanding :: "ticker \<Rightarrow> int option"
  info_impliedSharesOutstanding :: "ticker \<Rightarrow> int option"
  get_shares_full :: "ticker \<Rightarrow> (date \<times> int) list"
  historical_equity_data :: "ticker \<Rightarrow> (date \<times> fl \<times> fl) list"
  index_download :: "string \<Rightarrow> series"

text \<open>
  \<^verbatim>\<open>DataFrame.bfill\<close> on one column: a NaN cell takes the next cell below it that is not
  NaN, and stays NaN when there is none.
\<close>

definition bfill :: "date list \<Rightarrow> column \<Rightarrow> column" where
  "bfill idx col d =
     (case find (\<lambda>d'. \<not> isnan (col d')) (dropWhile (\<lambda>d'. d' \<noteq> d) idx) of
        None \<Rightarrow> col d
      | Some d' \<Rightarrow> col d')"

definition get_current_components :: "components \<Rightarrow> ticker list" where
  "get_current_components tickers = map fst (filter (\<lambda>(k, st, ed). ed = None) tickers)"

definition in_window :: "window \<Rightarrow> date \<Rightarrow> bool" where
  "in_window w d =
     ((case fst w of None \<Rightarrow> True | Some st \<Rightarrow> st \<le> d) \<and>
      (case snd w of None \<Rightarrow> True | Some ed \<Rightarrow> d \<le> ed))"

text \<open>\<^verbatim>\<open>subset.columns[subset.isna().all()]\<close>: the close column holds nothing but NaN.\<close>

definition is_delisted :: "panel \<Rightarrow> ticker \<Rightarrow> bool" where
  "is_delisted p t = list_all (\<lambda>d. isnan (p_close p t d)) (p_index p)"

text \<open>
  The body of the loop over the delisted tickers (lines 67 to 84). Writing the fallback
  rows at labels that the panel's index does not hold is pandas' KeyError;
  \<^verbatim>\<open>f.index[-1]\<close> of an empty frame is an IndexError; comparing a date with an end of
  \<^verbatim>\<open>None\<close> is a TypeError. The fallback rows carry no date twice.
\<close>

definition reconcile_ticker :: "feed \<Rightarrow> components \<Rightarrow> ticker \<Rightarrow> panel \<Rightarrow> error + panel" where
  "reconcile_ticker fd tickers t p =
     (case p_index p of
        [] \<Rightarrow> Inl IndexError
      | d0 # _ \<Rightarrow>
          (let f = filter (\<lambda>(d, c, v). d0 \<le> d) (historical_equity_data fd t)
           in if \<not> list_all (\<lambda>(d, c, v). d \<in> set (p_index p)) f then Inl KeyError
              else
                (let p1 = p\<lparr>p_close := (p_close p)
                             (t := \<lambda>d. case map_of f d of None \<Rightarrow> p_close p t d
                                        | Some (c, v) \<Rightarrow> c),
                           p_volume := (p_volume p)
                             (t := \<lambda>d. case map_of f d of None \<Rightarrow> p_volume p t d
                                        | Some (c, v) \<Rightarrow> v)\<rparr>
                 in case f of
                      [] \<Rightarrow> Inl IndexError
                    | _ # _ \<Rightarrow>
                        (case map_of tickers t of
                           None \<Rightarrow> Inl KeyError
                         | Some (st, None) \<Rightarrow> Inl TypeError
                         | Some (st, Some ed) \<Rightarrow>
                             (let (dl, cl, vl) = last f
                              in if dl < ed then
                                   Inr (p1\<lparr>p_close := (p_close p1)
                                          (t := \<lambda>d. if next_bday dl \<le> d \<and> d \<le> ed then cl
                                                     else p_close p1 t d),
                                        p_volume := (p_volume p1)
                                          (t := \<lambda>d. if next_bday dl \<le> d \<and> d \<le> ed then Fin 0
                                                     else p_volume p1 t d)\<rparr>)
                                 else Inr p1)))))"

text \<open>
  The loop itself. The source takes the delisted tickers in the order of the frame's
  columns, the model in the order of the dictionary's keys; the rounds write different
  columns, so the order decides only which error is met first.
\<close>

fun reconcile :: "feed \<Rightarrow> components \<Rightarrow> ticker list \<Rightarrow> panel \<Rightarrow> error + panel" where
  "reconcile fd tickers [] p = Inr p"
| "reconcile fd tickers (t # ts) p =
     (case reconcile_ticker fd tickers t p of
        Inl e \<Rightarrow> Inl e
      | Inr p' \<Rightarrow> reconcile fd tickers ts p')"

section \<open>Metrics: shares outstanding\<close>

text \<open>\<^verbatim>\<open>groupby(level=0).last()\<close>: one row per date, in date order, holding its last value.\<close>

definition groupby_last :: "(date \<times> int) list \<Rightarrow> (date \<times> int) list" where
  "groupby_last s =
     map (\<lambda>d. (d, snd (last (filter (\<lambda>(d', x). d' = d) s)))) (sort (remdups (map fst s)))"

text \<open>\<^verbatim>\<open>astype('int64')\<close> and \<^verbatim>\<open>int(...)\<close> drop the fraction, towards zero.\<close>

definition trunc_int :: "rat \<Rightarrow> int" where
  "trunc_int q = (if 0 \<le> q then \<lfloor>q\<rfloor> else \<lceil>q\<rceil>)"

text \<open>
  The correction for several share classes (lines 108 to 117), on the feed's share history
  \<^verbatim>\<open>shares_outst\<close>. The \<^verbatim>\<open>print\<close> evaluates the same quotient first, so a divisor of zero
  is a ZeroDivisionError.
\<close>

definition correct_shares ::
  "int option \<Rightarrow> int option \<Rightarrow> (date \<times> int) list \<Rightarrow> error + (date \<times> int) list" where
  "correct_shares shares_outstanding implied shares_outst =
     (case shares_outstanding of
        None \<Rightarrow> Inr shares_outst
      | Some cur \<Rightarrow>
          (case shares_outst of
             [] \<Rightarrow> Inl IndexError
           | _ # _ \<Rightarrow>
               (let latest = snd (last shares_outst)
                in if of_int cur * (12 / 10 :: rat) < of_int latest then
                     (let shares_outstanding2 = (case implied of None \<Rightarrow> latest | Some i \<Rightarrow> i)
                      in if shares_outstanding2 = 0 then Inl ZeroDivisionError
                         else Inr (map (\<lambda>(d, x). (d, trunc_int
                                   (of_int x * (of_int cur / of_int shares_outstanding2))))
                                 shares_outst))
                   else Inr shares_outst)))"

text \<open>
  Lines 121 to 126: the reported values are put on the panel's dates, the last reported
  value rolled forward and then the earliest one rolled backward. The series carries no
  date twice.
\<close>

definition fill_shares :: "(date \<times> int) list \<Rightarrow> column" where
  "fill_shares s d =
     (let srt = sort_key fst s
      in case filter (\<lambda>(d', x). d' \<le> d) srt of
           [] \<Rightarrow> (case srt of [] \<Rightarrow> NaN | (d', x) # _ \<Rightarrow> Fin (of_int x))
         | y # ys \<Rightarrow> Fin (of_int (snd (last (y # ys)))))"

type_synonym overrides = "(ticker \<rightharpoonup> (date \<times> int) list) option"

definition override_of :: "overrides \<Rightarrow> ticker \<Rightarrow> (date \<times> int) list option" where
  "override_of hist_shares_outs t =
     (case hist_shares_outs of None \<Rightarrow> None | Some h \<Rightarrow> h t)"

definition resolve_ticker ::
  "feed \<Rightarrow> overrides \<Rightarrow> ticker list \<Rightarrow> ticker \<Rightarrow> error + column" where
  "resolve_ticker fd hist_shares_outs delisted_tickers t =
     (if t \<in> set delisted_tickers then
        (case override_of hist_shares_outs t of
           None \<Rightarrow> Inl ValueError
         | Some s \<Rightarrow> Inr (fill_shares s))
      else
        (case override_of hist_shares_outs t of
           Some s \<Rightarrow> Inr (fill_shares s)
         | None \<Rightarrow>
             (case correct_shares (info_sharesOutstanding fd t)
                     (info_impliedSharesOutstanding fd t)
                     (groupby_last (get_shares_full fd t)) of
                Inl e \<Rightarrow> Inl e
              | Inr s \<Rightarrow> Inr (fill_shares s))))"

fun resolve_shares ::
  "feed \<Rightarrow> overrides \<Rightarrow> ticker list \<Rightarrow> ticker list \<Rightarrow> (ticker \<Rightarrow> column)
     \<Rightarrow> error + (ticker \<Rightarrow> column)" where
  "resolve_shares fd hist delisted [] acc = Inr acc"
| "resolve_shares fd hist delisted (t # ts) acc =
     (case resolve_ticker fd hist delisted t of
        Inl e \<Rightarrow> Inl e
      | Inr s \<Rightarrow> resolve_shares fd hist delisted ts (acc(t := s)))"

section \<open>Metrics: capitalization and the constructor\<close>

text \<open>
  \<^verbatim>\<open>self.capitalization\<close>: the two aggregate columns and one column per ticker, absent
  until the loop writes it. A slice assignment that creates a column leaves NaN in the
  rows it does not write.
\<close>

record cap_frame =
  c_capitalization :: column
  c_turnover :: column
  c_ticker :: "ticker \<rightharpoonup> column"

text \<open>
  An attribute of the object is unset until an assignment binds it; reading an unset
  attribute is an AttributeError.
\<close>

datatype 'a attr = Unset | Bound 'a

text \<open>
  The dictionary \<^verbatim>\<open>self.shares_outstanding\<close> is read at the keys of \<^verbatim>\<open>ticker_symbols\<close>
  only, after the loop of lines 87 to 126 has stored every one of them; it is a function
  of the ticker.
\<close>

record metrics =
  ticker_symbols :: components
  data :: panel
  dividend_yield :: "ticker \<rightharpoonup> fl"
  shares_outstanding :: "ticker \<Rightarrow> column"
  capitalization :: cap_frame
  forward_dividend_yield :: fl
  stock_index_data :: "series option attr"

text \<open>One round of the loop of lines 133 to 151, for the item \<open>(t, w)\<close>; \<open>dl\<close> is the last date.\<close>

definition cap_step ::
  "panel \<Rightarrow> (ticker \<Rightarrow> column) \<Rightarrow> (ticker \<rightharpoonup> fl) \<Rightarrow> components \<Rightarrow> date
     \<Rightarrow> ticker \<times> window \<Rightarrow> cap_frame \<times> fl \<Rightarrow> error + cap_frame \<times> fl" where
  "cap_step p sh dy tickers dl tw acc =
     (let t = fst tw; w = snd tw; cf = fst acc; fdy = snd acc;
          cf' = \<lparr>c_capitalization =
                   (\<lambda>d. if in_window w d
                         then fadd (c_capitalization cf d) (fmul (p_close p t d) (sh t d))
                         else c_capitalization cf d),
                 c_turnover =
                   (\<lambda>d. if in_window w d
                         then fadd (c_turnover cf d) (fmul (p_close p t d) (p_volume p t d))
                         else c_turnover cf d),
                 c_ticker = (c_ticker cf)
                   (t \<mapsto> (\<lambda>d. if in_window w d then fmul (p_close p t d) (sh t d) else NaN))\<rparr>
      in if t \<in> set (get_current_components tickers) then
           (case dy t of
              None \<Rightarrow> Inl KeyError
            | Some y \<Rightarrow> Inr (cf', fadd fdy (fmul (fmul (p_close p t dl) (sh t dl)) y)))
         else Inr (cf', fdy))"

fun cap_loop ::
  "panel \<Rightarrow> (ticker \<Rightarrow> column) \<Rightarrow> (ticker \<rightharpoonup> fl) \<Rightarrow> components \<Rightarrow> date
     \<Rightarrow> components \<Rightarrow> cap_frame \<times> fl \<Rightarrow> error + cap_frame \<times> fl" where
  "cap_loop p sh dy tickers dl [] acc = Inr acc"
| "cap_loop p sh dy tickers dl (tw # rest) acc =
     (case cap_step p sh dy tickers dl tw acc of
        Inl e \<Rightarrow> Inl e
      | Inr acc' \<Rightarrow> cap_loop p sh dy tickers dl rest acc')"

text \<open>
  Lines 130 to 153. \<^verbatim>\<open>iloc[-1]\<close> on an empty index is an IndexError, in the loop or
  after it.
\<close>

definition build_capitalization ::
  "panel \<Rightarrow> (ticker \<Rightarrow> column) \<Rightarrow> (ticker \<rightharpoonup> fl) \<Rightarrow> components \<Rightarrow> error + cap_frame \<times> fl" where
  "build_capitalization p sh dy tickers =
     (case p_index p of
        [] \<Rightarrow> Inl IndexError
      | _ # _ \<Rightarrow>
          (let dl = last (p_index p)
           in case cap_loop p sh dy tickers dl tickers
                     (\<lparr>c_capitalization = (\<lambda>d. Fin 0), c_turnover = (\<lambda>d. Fin 0),
                       c_ticker = Map.empty\<rparr>, Fin 0) of
                Inl e \<Rightarrow> Inl e
              | Inr (cf, fdy) \<Rightarrow> Inr (cf, fdiv fdy (c_capitalization cf dl))))"

definition record_dividend_yields :: "feed \<Rightarrow> components \<Rightarrow> (ticker \<rightharpoonup> fl)" where
  "record_dividend_yields fd tickers =
     foldl (\<lambda>m t. m(t \<mapsto> (case info_dividendYield fd t of None \<Rightarrow> Fin 0 | Some y \<Rightarrow> Fin y)))
       Map.empty (get_current_components tickers)"

definition downloaded :: "feed \<Rightarrow> panel" where
  "downloaded fd =
     \<lparr>p_index = download_index fd,
      p_close = (\<lambda>t. bfill (download_index fd) (download_close fd t)),
      p_volume = (\<lambda>t. bfill (download_index fd) (download_volume fd t))\<rparr>"

text \<open>
  \<^verbatim>\<open>Metrics.__init__\<close>. The loops run over the keys of \<^verbatim>\<open>tickers\<close> in their order; the
  list of delisted tickers is taken once, after the backward fill, and both later loops
  read that list.
\<close>

definition init :: "feed \<Rightarrow> components \<Rightarrow> string option \<Rightarrow> overrides \<Rightarrow> error + metrics" where
  "init fd tickers stock_index hist_shares_outs =
     (let p0 = downloaded fd;
          dy = record_dividend_yields fd tickers;
          delisted_tickers = filter (is_delisted p0) (map fst tickers)
      in case reconcile fd tickers delisted_tickers p0 of
           Inl e \<Rightarrow> Inl e
         | Inr p \<Rightarrow>
             (case resolve_shares fd hist_shares_outs delisted_tickers (map fst tickers)
                     (\<lambda>t d. NaN) of
                Inl e \<Rightarrow> Inl e
              | Inr sh \<Rightarrow>
                  (case build_capitalization p sh dy tickers of
                     Inl e \<Rightarrow> Inl e
                   | Inr (cf, fdy) \<Rightarrow>
                       Inr \<lparr>ticker_symbols = tickers, data = p, dividend_yield = dy,
                            shares_outstanding = sh, capitalization = cf,
                            forward_dividend_yield = fdy,
                            stock_index_data =
                              (case stock_index of
                                 None \<Rightarrow> Unset
                               | Some s \<Rightarrow> Bound (Some (index_download fd s)))\<rparr>)))"

section \<open>Metrics: the queries\<close>

text \<open>
  A frequency names the period of every date by its label. \<^verbatim>\<open>resample(f).mean().dropna()\<close>
  averages the cells of each period that are not NaN and drops the periods whose mean is
  NaN, among them the periods without a date.
\<close>

type_synonym frequency = "date \<Rightarrow> date"

definition mean :: "fl list \<Rightarrow> fl" where
  "mean xs =
     (let ys = filter (\<lambda>x. \<not> isnan x) xs
      in if ys = [] then NaN else fdiv (fsum ys) (Fin (of_nat (length ys))))"

definition resample_mean :: "frequency \<Rightarrow> series \<Rightarrow> series" where
  "resample_mean freq s =
     map (\<lambda>k. (k, mean (map snd (filter (\<lambda>(d, x). freq d = k) s))))
       (remdups (map (\<lambda>(d, x). freq d) s))"

definition dropna :: "series \<Rightarrow> series" where
  "dropna s = filter (\<lambda>(k, x). \<not> isnan x) s"

definition column_series :: "date list \<Rightarrow> column \<Rightarrow> series" where
  "column_series idx col = map (\<lambda>d. (d, col d)) idx"

text \<open>
  The loop \<^verbatim>\<open>ret += term.loc[st:ed]\<close> over a list of tickers: the sum of two series is
  aligned on the labels, and a date that the slice does not hold becomes NaN.
\<close>

fun subset_sum ::
  "(ticker \<Rightarrow> column) \<Rightarrow> components \<Rightarrow> ticker list \<Rightarrow> column \<Rightarrow> error + column" where
  "subset_sum term syms [] acc = Inr acc"
| "subset_sum term syms (t # ts) acc =
     (case map_of syms t of
        None \<Rightarrow> Inl KeyError
      | Some w \<Rightarrow>
          subset_sum term syms ts
            (\<lambda>d. if in_window w d then fadd (acc d) (term t d) else NaN))"

text \<open>
  The attribute \<^verbatim>\<open>ret\<close> of a series: pandas defines none, and a date index holds no label
  of that name.
\<close>

definition series_ret :: "series \<Rightarrow> error + series" where
  "series_ret s = Inl AttributeError"

definition get_capitalization ::
  "metrics \<Rightarrow> frequency \<Rightarrow> ticker list option \<Rightarrow> error + series" where
  "get_capitalization m frequency tickers =
     (case tickers of
        None \<Rightarrow>
          Inr (dropna (resample_mean frequency
                 (column_series (p_index (data m)) (c_capitalization (capitalization m)))))
      | Some ts \<Rightarrow>
          (case subset_sum (\<lambda>t d. fmul (p_close (data m) t d) (shares_outstanding m t d))
                  (ticker_symbols m) ts (\<lambda>d. Fin 0) of
             Inl e \<Rightarrow> Inl e
           | Inr ret \<Rightarrow>
               (case series_ret (resample_mean frequency
                        (column_series (p_index (data m)) ret)) of
                  Inl e \<Rightarrow> Inl e
                | Inr r \<Rightarrow> Inr (dropna r))))"




text \<open>
  \<^verbatim>\<open>get_annual_volatility\<close>. The pandas pipeline
  \<^verbatim>\<open>pct_change().ewm(alpha=alpha).std() * TO_ANNUAL_MULTIPLIER\<close> is the parameter \<open>ewm_vol\<close>;
  the result \<open>None\<close> is Python's \<^verbatim>\<open>None\<close>.
\<close>

definition get_annual_volatility ::
  "(rat \<Rightarrow> series \<Rightarrow> series) \<Rightarrow> metrics \<Rightarrow> rat \<Rightarrow> frequency \<Rightarrow> error + series option" where
  "get_annual_volatility ewm_vol m alpha frequency =
     (case stock_index_data m of
        Unset \<Rightarrow> Inl AttributeError
      | Bound None \<Rightarrow> Inr None
      | Bound (Some s) \<Rightarrow> Inr (Some (dropna (resample_mean frequency (ewm_vol alpha s)))))"

section \<open>Concrete inputs\<close>



text \<open>
  A market of three tickers over six business days, Monday 737598 to the next Monday
  737605. A is a member throughout and fully observed. B joined on the second day, its
  first observation is on the third, and the feed reports no dividend yield for it. C left
  the market on the Friday; the primary feed has nothing for it, the fallback rows end on
  the Tuesday, and its share counts come from the overrides.
\<close>

definition market_index :: "date list" where
  "market_index = [737598, 737599, 737600, 737601, 737602, 737605]"

definition market_tickers :: components where
  "market_tickers =
     [(''A'', None, None), (''B'', Some 737599, None), (''C'', None, Some 737602)]"

definition market_feed :: feed where
  "market_feed =
     \<lparr>download_index = market_index,
      download_close = (\<lambda>t d. if t = ''A'' then Fin 100
                               else if t = ''B'' \<and> 737600 \<le> d then Fin 50 else NaN),
      download_volume = (\<lambda>t d. if t = ''A'' then Fin 10
                                else if t = ''B'' \<and> 737600 \<le> d then Fin 5 else NaN),
      info_dividendYield = (\<lambda>t. if t = ''A'' then Some (2 / 100) else None),
      info_sharesOutstanding = (\<lambda>t. if t = ''A'' then Some 10 else None),
      info_impliedSharesOutstanding = (\<lambda>t. None),
      get_shares_full = (\<lambda>t. if t = ''A'' then [(737598, 10)] else [(737600, 20)]),
      historical_equity_data =
        (\<lambda>t. if t = ''C'' then [(737598, Fin 30, Fin 7), (737599, Fin 31, Fin 8)] else []),
      index_download = (\<lambda>s. [])\<rparr>"

definition market_overrides :: overrides where
  "market_overrides = Some [''C'' \<mapsto> [(737598, 40)]]"




section \<open>Evaluating the example market\<close>

lemmas market_defs = init_def market_feed_def market_tickers_def market_overrides_def
  market_index_def downloaded_def bfill_def is_delisted_def reconcile_ticker_def
  resolve_ticker_def override_of_def build_capitalization_def cap_step_def
  get_current_components_def record_dividend_yields_def correct_shares_def groupby_last_def
  fill_shares_def in_window_def Let_def next_bday_def weekday_def

lemma market_init: "\<exists>m. init market_feed market_tickers None market_overrides = Inr m"
  by (simp add: market_defs split: sum.splits)

section \<open>What the constructor returns\<close>

lemma init_Inr:
  assumes "init fd tickers stock_index hist = Inr m"
  obtains p sh cf fdy where
    "reconcile fd tickers (filter (is_delisted (downloaded fd)) (map fst tickers))
       (downloaded fd) = Inr p"
    "resolve_shares fd hist (filter (is_delisted (downloaded fd)) (map fst tickers))
       (map fst tickers) (\<lambda>t d. NaN) = Inr sh"
    "build_capitalization p sh (record_dividend_yields fd tickers) tickers = Inr (cf, fdy)"
    "ticker_symbols m = tickers" "data m = p"
    "dividend_yield m = record_dividend_yields fd tickers"
    "shares_outstanding m = sh" "capitalization m = cf" "forward_dividend_yield m = fdy"
  using assms
  by (auto simp: init_def Let_def split: sum.splits prod.splits)

lemma fadd_zero: "fadd x (Fin 0) = x"
  by (cases x) simp_all

lemma find_append_none:
  "find P xs = None \<Longrightarrow> find P (xs @ ys) = find P ys"
  by (induction xs) (auto split: if_splits)

section \<open>The backward fill\<close>

lemma bfill_keeps_nan:
  assumes "\<forall>d \<in> set idx. isnan (col d)" and "d \<in> set idx"
  shows "isnan (bfill idx col d)"
proof -
  have "set (dropWhile (\<lambda>d'. d' \<noteq> d) idx) \<subseteq> set idx"
    by (auto dest: set_dropWhileD)
  with assms(1) have "find (\<lambda>d'. \<not> isnan (col d')) (dropWhile (\<lambda>d'. d' \<noteq> d) idx) = None"
    by (auto simp: find_None_iff)
  with assms show ?thesis by (simp add: bfill_def)
qed

lemma bfill_first_observation:
  assumes "idx = pre @ d0 # post" and "\<forall>d \<in> set pre. isnan (col d)"
    and "\<not> isnan (col d0)" and "d \<in> set pre"
  shows "bfill idx col d = col d0"
proof -
  from assms(4) obtain a b where pre: "pre = a @ d # b" and a: "d \<notin> set a"
    by (auto dest: split_list_first)
  have "dropWhile (\<lambda>d'. d' \<noteq> d) idx = d # b @ d0 # post"
    using a by (auto simp: assms(1) pre dropWhile_append3)
  moreover have "find (\<lambda>d'. \<not> isnan (col d')) (d # b) = None"
    using assms(2) by (auto simp: pre find_None_iff)
  then have "find (\<lambda>d'. \<not> isnan (col d')) ((d # b) @ d0 # post) = Some d0"
    using assms(3) by (simp only: find_append_none) simp
  ultimately show ?thesis by (simp add: bfill_def)
qed

lemma bfill_observed: "\<not> isnan (col d) \<Longrightarrow> d \<in> set idx \<Longrightarrow> bfill idx col d = col d"
proof -
  assume n: "\<not> isnan (col d)" and d: "d \<in> set idx"
  then obtain ys where "dropWhile (\<lambda>d'. d' \<noteq> d) idx = d # ys"
    by (metis (mono_tags, lifting) dropWhile_eq_Nil_conv hd_dropWhile list.collapse)
  with n show ?thesis by (simp add: bfill_def)
qed

lemma delisted_after_bfill:
  assumes "\<forall>d \<in> set (download_index fd). isnan (download_close fd t d)"
  shows "is_delisted (downloaded fd) t"
  using assms bfill_keeps_nan [of "download_index fd" "download_close fd t"]
  by (simp add: is_delisted_def downloaded_def list_all_iff)

lemma observed_not_delisted:
  assumes "d \<in> set (download_index fd)" and "\<not> isnan (download_close fd t d)"
  shows "\<not> is_delisted (downloaded fd) t"
proof -
  have "\<not> isnan (bfill (download_index fd) (download_close fd t) d)"
    using assms bfill_observed [of "download_close fd t" d "download_index fd"] by simp
  with assms(1) show ?thesis
    by (auto simp: is_delisted_def downloaded_def list_all_iff)
qed

section \<open>The loop over the delisted tickers\<close>

text \<open>
  A round of the loop writes the two columns of its own ticker and leaves the index and
  every other column as they are.
\<close>

lemma reconcile_ticker_other:
  assumes "reconcile_ticker fd tickers u p = Inr p'"
  shows "p_index p' = p_index p \<and>
         (t \<noteq> u \<longrightarrow> p_close p' t = p_close p t \<and> p_volume p' t = p_volume p t)"
  using assms
  by (auto simp: reconcile_ticker_def Let_def
        split: list.splits if_splits option.splits prod.splits)

lemma reconcile_other:
  "reconcile fd tickers us p = Inr p' \<Longrightarrow>
     p_index p' = p_index p \<and>
     (t \<notin> set us \<longrightarrow> p_close p' t = p_close p t \<and> p_volume p' t = p_volume p t)"
proof (induction us arbitrary: p)
  case Nil
  then show ?case by simp
next
  case (Cons u us)
  from Cons.prems obtain p1 where
    one: "reconcile_ticker fd tickers u p = Inr p1" and rest: "reconcile fd tickers us p1 = Inr p'"
    by (auto split: sum.splits)
  from reconcile_ticker_other [OF one, of t] Cons.IH [OF rest] show ?case by auto
qed

lemma reconcile_at:
  "reconcile fd tickers us p = Inr p' \<Longrightarrow> distinct us \<Longrightarrow> t \<in> set us \<Longrightarrow>
     \<exists>p1 p2. p_index p1 = p_index p \<and> p_close p1 t = p_close p t \<and>
       p_volume p1 t = p_volume p t \<and> reconcile_ticker fd tickers t p1 = Inr p2 \<and>
       p_close p' t = p_close p2 t \<and> p_volume p' t = p_volume p2 t"
proof (induction us arbitrary: p)
  case Nil
  from Nil.prems(3) show ?case by simp
next
  case (Cons u us)
  from Cons.prems(1) obtain q where
    one: "reconcile_ticker fd tickers u p = Inr q" and rest: "reconcile fd tickers us q = Inr p'"
    by (auto split: sum.splits)
  show ?case
  proof (cases "u = t")
    case True
    with Cons.prems(2) have "t \<notin> set us" by simp
    with reconcile_other [OF rest, of t]
    have "p_close p' t = p_close q t" "p_volume p' t = p_volume q t"
      by auto
    with one True show ?thesis by blast
  next
    case False
    with Cons.prems(2,3) have d: "distinct us" and m: "t \<in> set us" by auto
    from reconcile_ticker_other [OF one, of t] False
    have q: "p_index q = p_index p" "p_close q t = p_close p t" "p_volume q t = p_volume p t"
      by auto
    from Cons.IH [OF rest d m] q show ?thesis by metis
  qed
qed

lemma reconcile_ticker_fill:
  assumes "reconcile_ticker fd tickers t p = Inr p'"
    and "p_index p = d0 # rest"
    and "filter (\<lambda>(d, c, v). d0 \<le> d) (historical_equity_data fd t) = f"
    and "last f = (dl, cl, vl)" and "map_of tickers t = Some (st, Some ed)"
    and "dl < ed" and "next_bday dl \<le> d" and "d \<le> ed"
  shows "p_close p' t d = cl \<and> p_volume p' t d = Fin 0"
  using assms
  by (auto simp: reconcile_ticker_def Let_def split: list.splits if_splits)

lemma init_index:
  assumes "init fd tickers stock_index hist = Inr m"
  shows "p_index (data m) = download_index fd"
proof -
  from assms obtain p where
    "reconcile fd tickers (filter (is_delisted (downloaded fd)) (map fst tickers))
       (downloaded fd) = Inr p" and "data m = p"
    by (rule init_Inr)
  with reconcile_other [OF this(1), of undefined] show ?thesis
    by (simp add: downloaded_def)
qed

section \<open>The loop that resolves the shares outstanding\<close>

lemma resolve_shares_error:
  "t \<in> set ts \<Longrightarrow> resolve_ticker fd hist del t = Inl e \<Longrightarrow>
     \<exists>e'. resolve_shares fd hist del ts acc = Inl e'"
  by (induction ts arbitrary: acc) (auto split: sum.splits)

lemma resolve_shares_result:
  "resolve_shares fd hist del ts acc = Inr sh \<Longrightarrow>
     (t \<in> set ts \<longrightarrow> resolve_ticker fd hist del t = Inr (sh t)) \<and>
     (t \<notin> set ts \<longrightarrow> sh t = acc t)"
proof (induction ts arbitrary: acc)
  case Nil
  then show ?case by simp
next
  case (Cons u us)
  from Cons.prems obtain s where
    one: "resolve_ticker fd hist del u = Inr s"
    and rest: "resolve_shares fd hist del us (acc(u := s)) = Inr sh"
    by (auto split: sum.splits)
  from Cons.IH [OF rest] one show ?case by (cases "t \<in> set us") auto
qed

section \<open>The loop that builds the capitalization frame\<close>

lemma cap_step_capitalization:
  "cap_step p sh dy tickers dl tw acc = Inr acc' \<Longrightarrow>
     c_capitalization (fst acc') d =
       (if in_window (snd tw) d
        then fadd (c_capitalization (fst acc) d) (fmul (p_close p (fst tw) d) (sh (fst tw) d))
        else c_capitalization (fst acc) d)"
  by (auto simp: cap_step_def Let_def split: if_splits option.splits)

lemma cap_loop_capitalization:
  "cap_loop p sh dy tickers dl rest acc = Inr acc' \<Longrightarrow>
     c_capitalization (fst acc') d =
       foldl fadd (c_capitalization (fst acc) d)
         (map (\<lambda>(t, w). fmul (p_close p t d) (sh t d))
            (filter (\<lambda>(t, w). in_window w d) rest))"
proof (induction rest arbitrary: acc)
  case Nil
  then show ?case by simp
next
  case (Cons tw rest)
  from Cons.prems obtain acc1 where
    one: "cap_step p sh dy tickers dl tw acc = Inr acc1"
    and more: "cap_loop p sh dy tickers dl rest acc1 = Inr acc'"
    by (auto split: sum.splits)
  from Cons.IH [OF more] cap_step_capitalization [OF one, of d]
  show ?case by (cases tw) simp
qed

lemma sum_with_zeros:
  "foldl fadd a (map g (filter P xs)) = foldl fadd a (map (\<lambda>x. if P x then g x else Fin 0) xs)"
  by (induction xs arbitrary: a) (simp_all add: fadd_zero)

lemma init_capitalization:
  assumes "init fd tickers stock_index hist = Inr m"
  shows "c_capitalization (capitalization m) d =
     fsum (map (\<lambda>(t, w). fmul (p_close (data m) t d) (shares_outstanding m t d))
             (filter (\<lambda>(t, w). in_window w d) tickers))"
proof -
  from assms obtain p sh cf fdy where
    b: "build_capitalization p sh (record_dividend_yields fd tickers) tickers = Inr (cf, fdy)"
    and m: "data m = p" "shares_outstanding m = sh" "capitalization m = cf"
    by (rule init_Inr)
  from b obtain acc' where
    "cap_loop p sh (record_dividend_yields fd tickers) tickers (last (p_index p)) tickers
       (\<lparr>c_capitalization = (\<lambda>d. Fin 0), c_turnover = (\<lambda>d. Fin 0), c_ticker = Map.empty\<rparr>,
        Fin 0) = Inr acc'" and "cf = fst acc'"
    by (auto simp: build_capitalization_def Let_def split: list.splits sum.splits)
  from cap_loop_capitalization [OF this(1), of d] this(2) m show ?thesis
    by (simp add: fsum_def)
qed

lemma recorded_lookup:
  "foldl (\<lambda>m t. m(t \<mapsto> g t)) m0 ts t = (if t \<in> set ts then Some (g t) else m0 t)"
  by (induction ts arbitrary: m0) auto

lemma record_dividend_yields_lookup:
  "record_dividend_yields fd tickers t =
     (if t \<in> set (get_current_components tickers)
      then Some (case info_dividendYield fd t of None \<Rightarrow> Fin 0 | Some y \<Rightarrow> Fin y)
      else None)"
  unfolding record_dividend_yields_def by (simp add: recorded_lookup)

lemma cap_step_yield:
  "cap_step p sh dy tickers dl tw acc = Inr acc' \<Longrightarrow>
   (\<And>t. t \<in> set (get_current_components tickers) \<Longrightarrow> dy t = Some (yld t)) \<Longrightarrow>
     snd acc' =
       (if fst tw \<in> set (get_current_components tickers)
        then fadd (snd acc) (fmul (fmul (p_close p (fst tw) dl) (sh (fst tw) dl)) (yld (fst tw)))
        else snd acc)"
  by (auto simp: cap_step_def Let_def split: if_splits option.splits)

lemma cap_loop_yield:
  "cap_loop p sh dy tickers dl rest acc = Inr acc' \<Longrightarrow>
   (\<And>t. t \<in> set (get_current_components tickers) \<Longrightarrow> dy t = Some (yld t)) \<Longrightarrow>
     snd acc' =
       foldl fadd (snd acc)
         (map (\<lambda>t. fmul (fmul (p_close p t dl) (sh t dl)) (yld t))
            (filter (\<lambda>t. t \<in> set (get_current_components tickers)) (map fst rest)))"
proof (induction rest arbitrary: acc)
  case Nil
  then show ?case by simp
next
  case (Cons tw rest)
  from Cons.prems(1) obtain acc1 where
    one: "cap_step p sh dy tickers dl tw acc = Inr acc1"
    and more: "cap_loop p sh dy tickers dl rest acc1 = Inr acc'"
    by (auto split: sum.splits)
  from Cons.IH [OF more Cons.prems(2)] cap_step_yield [OF one Cons.prems(2)]
  show ?case by simp
qed

lemma current_components_filter:
  assumes "distinct (map fst tickers)"
  shows "filter (\<lambda>t. t \<in> set (get_current_components tickers)) (map fst tickers) =
           get_current_components tickers"
proof -
  have "fst tw \<in> set (get_current_components tickers) \<longleftrightarrow> snd (snd tw) = None"
    if "tw \<in> set tickers" for tw
  proof
    assume "fst tw \<in> set (get_current_components tickers)"
    then obtain tw' where tw': "tw' \<in> set tickers" "snd (snd tw') = None" "fst tw' = fst tw"
      by (auto simp: get_current_components_def)
    from assms have "inj_on fst (set tickers)" by (simp add: distinct_map)
    with that tw'(1,3) have "tw' = tw" by (auto dest: inj_onD)
    with tw'(2) show "snd (snd tw) = None" by simp
  next
    assume "snd (snd tw) = None"
    with that show "fst tw \<in> set (get_current_components tickers)"
      by (force simp: get_current_components_def)
  qed
  then have "filter (\<lambda>tw. fst tw \<in> set (get_current_components tickers)) tickers =
      filter (\<lambda>(k, st, ed). ed = None) tickers"
    by (intro filter_cong) (auto simp: case_prod_unfold)
  then show ?thesis
    by (simp add: filter_map comp_def get_current_components_def)
qed

lemma zero_yield_terms:
  assumes "\<forall>t \<in> set ts. info t = None \<longrightarrow> (\<exists>c. capl t = Fin c)"
  shows "foldl fadd a
           (map (\<lambda>t. fmul (capl t) (case info t of None \<Rightarrow> Fin 0 | Some y \<Rightarrow> Fin y)) ts) =
         foldl fadd a
           (concat (map (\<lambda>t. case info t of None \<Rightarrow> [] | Some y \<Rightarrow> [fmul (capl t) (Fin y)]) ts))"
  using assms
proof (induction ts arbitrary: a)
  case Nil
  then show ?case by simp
next
  case (Cons t ts)
  show ?case
  proof (cases "info t")
    case None
    with Cons.prems obtain c where "capl t = Fin c" by auto
    with None Cons show ?thesis by (simp add: fadd_zero)
  next
    case (Some y)
    with Cons show ?thesis by simp
  qed
qed


section \<open>The membership map: when the replay raises\<close>











section \<open>The aggregate capitalization\<close>

text \<open>
  Claim C1. On every date of the panel the aggregate capitalization column of the
  constructed object is the running sum, in the order of the tickers, of close price times
  resolved shares outstanding over exactly the tickers whose membership window holds the
  date; equally, it is the sum over all tickers in which a ticker outside its window counts
  as zero.
\<close>

theorem capitalization_sums_active_tickers:
  assumes "init fd tickers stock_index hist = Inr m" and "d \<in> set (p_index (data m))"
  shows "c_capitalization (capitalization m) d =
           fsum (map (\<lambda>(t, w). fmul (p_close (data m) t d) (shares_outstanding m t d))
                   (filter (\<lambda>(t, w). in_window w d) (ticker_symbols m))) \<and>
         c_capitalization (capitalization m) d =
           fsum (map (\<lambda>(t, w). if in_window w d
                       then fmul (p_close (data m) t d) (shares_outstanding m t d) else Fin 0)
                   (ticker_symbols m))"
proof -
  from assms(1) have t: "ticker_symbols m = tickers" by (rule init_Inr)
  have "c_capitalization (capitalization m) d =
      fsum (map (\<lambda>(t, w). fmul (p_close (data m) t d) (shares_outstanding m t d))
              (filter (\<lambda>(t, w). in_window w d) (ticker_symbols m)))"
    using init_capitalization [OF assms(1)] t by simp
  moreover have
    "fsum (map (\<lambda>(t, w). fmul (p_close (data m) t d) (shares_outstanding m t d))
             (filter (\<lambda>(t, w). in_window w d) (ticker_symbols m))) =
     fsum (map (\<lambda>(t, w). if in_window w d
                 then fmul (p_close (data m) t d) (shares_outstanding m t d) else Fin 0)
             (ticker_symbols m))"
    unfolding fsum_def sum_with_zeros
    by (rule arg_cong [where f = "foldl fadd (Fin 0)"]) (auto simp: case_prod_unfold)
  ultimately show ?thesis by simp
qed

theorem capitalization_sums_active_tickers_witness:
  "\<exists>m. init market_feed market_tickers None market_overrides = Inr m \<and>
       c_capitalization (capitalization m) 737598 =
         fsum [fmul (p_close (data m) ''A'' 737598) (shares_outstanding m ''A'' 737598),
               fmul (p_close (data m) ''C'' 737598) (shares_outstanding m ''C'' 737598)] \<and>
       c_capitalization (capitalization m) 737598 = Fin 2200"
proof -
  from market_init obtain m
    where m: "init market_feed market_tickers None market_overrides = Inr m" ..
  have d: "737598 \<in> set (p_index (data m))"
    using init_index [OF m] by (simp add: market_feed_def market_index_def)
  have t: "ticker_symbols m = market_tickers" using m by (rule init_Inr)
  have v: "c_capitalization (capitalization m) 737598 = Fin 2200"
    using m by (auto simp: market_defs)
  from capitalization_sums_active_tickers [OF m d] v m show ?thesis
    unfolding t by (auto simp: market_tickers_def in_window_def)
qed

section \<open>Dates before the first observation\<close>

text \<open>
  Claim C2, as the code has it. The backward fill runs over the whole frame: when a
  ticker's first observation comes after the panel's first date, every earlier date holds
  the close price of that first observation and also its volume.
\<close>

theorem backfill_on_entry:
  assumes "init fd tickers stock_index hist = Inr m"
    and "download_index fd = pre @ d0 # post"
    and "\<forall>d \<in> set pre. isnan (download_close fd t d) \<and> isnan (download_volume fd t d)"
    and "\<not> isnan (download_close fd t d0)" and "\<not> isnan (download_volume fd t d0)"
    and "d \<in> set pre"
  shows "p_close (data m) t d = download_close fd t d0 \<and>
         p_volume (data m) t d = download_volume fd t d0"
proof -
  let ?del = "filter (is_delisted (downloaded fd)) (map fst tickers)"
  from assms(1) obtain p where
    rec: "reconcile fd tickers ?del (downloaded fd) = Inr p" and p: "data m = p"
    by (rule init_Inr)
  have "d0 \<in> set (download_index fd)" using assms(2) by simp
  from observed_not_delisted [OF this assms(4)] have "t \<notin> set ?del" by simp
  with reconcile_other [OF rec, of t]
  have "p_close p t = bfill (download_index fd) (download_close fd t)"
    and "p_volume p t = bfill (download_index fd) (download_volume fd t)"
    by (simp_all add: downloaded_def)
  moreover have "bfill (download_index fd) (download_close fd t) d = download_close fd t d0"
    using assms(3)
    by (intro bfill_first_observation [of _ pre d0 post "download_close fd t" d]
          assms(2,4,6)) simp
  moreover have "bfill (download_index fd) (download_volume fd t) d = download_volume fd t d0"
    using assms(3)
    by (intro bfill_first_observation [of _ pre d0 post "download_volume fd t" d]
          assms(2,5,6)) simp
  ultimately show ?thesis using p by simp
qed

theorem backfill_on_entry_witness:
  "\<exists>m. init market_feed market_tickers None market_overrides = Inr m \<and>
       p_close (data m) ''B'' 737598 = Fin 50 \<and> p_volume (data m) ''B'' 737598 = Fin 5"
proof -
  from market_init obtain m
    where m: "init market_feed market_tickers None market_overrides = Inr m" ..
  have h2: "download_index market_feed = [737598, 737599] @ 737600 # [737601, 737602, 737605]"
    by (simp add: market_feed_def market_index_def)
  have h3: "\<forall>d \<in> set [737598, 737599]. isnan (download_close market_feed ''B'' d) \<and>
      isnan (download_volume market_feed ''B'' d)"
    by (simp add: market_feed_def)
  have h4: "\<not> isnan (download_close market_feed ''B'' 737600)" by (simp add: market_feed_def)
  have h5: "\<not> isnan (download_volume market_feed ''B'' 737600)" by (simp add: market_feed_def)
  have h6: "(737598 :: date) \<in> set [737598, 737599]" by simp
  from backfill_on_entry [OF m h2 h3 h4 h5 h6] m show ?thesis
    by (auto simp: market_feed_def)
qed

text \<open>
  Claim C2, as the specification states it, fails on the volume: ticker B of the example
  market is first observed on the third date with volume 5, and the first date holds that
  volume, not zero.
\<close>

theorem backfill_volume_counterexample:
  "isnan (download_close market_feed ''B'' 737598) \<and>
   isnan (download_close market_feed ''B'' 737599) \<and>
   \<not> isnan (download_close market_feed ''B'' 737600) \<and>
   p_close (data (projr (init market_feed market_tickers None market_overrides))) ''B'' 737598
     = Fin 50 \<and>
   p_volume (data (projr (init market_feed market_tickers None market_overrides))) ''B'' 737598
     = Fin 5 \<and>
   p_volume (data (projr (init market_feed market_tickers None market_overrides))) ''B'' 737598
     \<noteq> Fin 0"
  by (simp add: market_defs)

section \<open>Delisted tickers whose fallback data end early\<close>

text \<open>
  Claim C3. For a delisted ticker (the primary feed has no close price for it) whose
  fallback rows end on a date before its membership end, every date of the constructed
  panel from one business day after the last fallback date up to the membership end holds
  the last fallback close and the volume zero.
\<close>

theorem delisted_gap_fill:
  assumes "init fd tickers stock_index hist = Inr m"
    and "distinct (map fst tickers)" and "(t, st, Some ed) \<in> set tickers"
    and "\<forall>d \<in> set (download_index fd). isnan (download_close fd t d)"
    and "download_index fd = d0 # rest"
    and "filter (\<lambda>(d, c, v). d0 \<le> d) (historical_equity_data fd t) = f"
    and "last f = (dl, cl, vl)" and "dl < ed"
    and "d \<in> set (p_index (data m))" and "next_bday dl \<le> d" and "d \<le> ed"
  shows "p_close (data m) t d = cl \<and> p_volume (data m) t d = Fin 0"
proof -
  let ?del = "filter (is_delisted (downloaded fd)) (map fst tickers)"
  from assms(1) obtain p where
    rec: "reconcile fd tickers ?del (downloaded fd) = Inr p" and p: "data m = p"
    by (rule init_Inr)
  have look: "map_of tickers t = Some (st, Some ed)"
    using assms(2,3) by (rule map_of_is_SomeI)
  have "t \<in> set (map fst tickers)" using assms(3) by force
  with delisted_after_bfill [OF assms(4)] have mem: "t \<in> set ?del" by simp
  have dis: "distinct ?del" using assms(2) by simp
  from reconcile_at [OF rec dis mem] obtain p1 p2 where
    i1: "p_index p1 = p_index (downloaded fd)"
    and one: "reconcile_ticker fd tickers t p1 = Inr p2"
    and same: "p_close p t = p_close p2 t" "p_volume p t = p_volume p2 t"
    by blast
  from i1 assms(5) have idx: "p_index p1 = d0 # rest" by (simp add: downloaded_def)
  from reconcile_ticker_fill [OF one idx assms(6,7) look assms(8,10,11)] same p
  show ?thesis by simp
qed

theorem delisted_gap_fill_witness:
  "\<exists>m. init market_feed market_tickers None market_overrides = Inr m \<and>
       p_close (data m) ''C'' 737601 = Fin 31 \<and> p_volume (data m) ''C'' 737601 = Fin 0"
proof -
  from market_init obtain m
    where m: "init market_feed market_tickers None market_overrides = Inr m" ..
  have h2: "distinct (map fst market_tickers)" by (simp add: market_tickers_def)
  have h3: "(''C'', None, Some 737602) \<in> set market_tickers" by (simp add: market_tickers_def)
  have h4: "\<forall>d \<in> set (download_index market_feed). isnan (download_close market_feed ''C'' d)"
    by (simp add: market_feed_def)
  have h5: "download_index market_feed = 737598 # [737599, 737600, 737601, 737602, 737605]"
    by (simp add: market_feed_def market_index_def)
  have h6: "filter (\<lambda>(d, c, v). 737598 \<le> d) (historical_equity_data market_feed ''C'') =
      [(737598, Fin 30, Fin 7), (737599, Fin 31, Fin 8)]"
    by (simp add: market_feed_def)
  have h7: "last [(737598 :: date, Fin 30, Fin 7), (737599, Fin 31, Fin 8)] = (737599, Fin 31, Fin 8)"
    by simp
  have h8: "(737599 :: date) < 737602" by simp
  have h9: "737601 \<in> set (p_index (data m))"
    using init_index [OF m] by (simp add: market_feed_def market_index_def)
  have h10: "next_bday 737599 \<le> 737601" by (simp add: next_bday_def weekday_def)
  have h11: "(737601 :: date) \<le> 737602" by simp
  from delisted_gap_fill [OF m h2 h3 h4 h5 h6 h7 h8 h9 h10 h11] m show ?thesis by blast
qed

section \<open>The correction for several share classes\<close>









section \<open>Delisted tickers and the overrides\<close>

text \<open>
  Claim C5. For a tracked ticker without any close price in the primary feed: with no
  entry among the overrides the constructor ends in an error and returns no object; with an
  entry, the shares of the constructed object are the filled override series, whatever the
  feed reports.
\<close>

theorem delisted_needs_override:
  assumes "t \<in> fst ` set tickers"
    and "\<forall>d \<in> set (download_index fd). isnan (download_close fd t d)"
  shows "(override_of hist t = None \<longrightarrow> (\<exists>e. init fd tickers stock_index hist = Inl e)) \<and>
         (\<forall>s m. override_of hist t = Some s \<longrightarrow> init fd tickers stock_index hist = Inr m \<longrightarrow>
                  shares_outstanding m t = fill_shares s)"
proof -
  let ?del = "filter (is_delisted (downloaded fd)) (map fst tickers)"
  from assms(1) have keys: "t \<in> set (map fst tickers)" by simp
  with delisted_after_bfill [OF assms(2)] have mem: "t \<in> set ?del" by simp
  have raises: "\<exists>e. init fd tickers stock_index hist = Inl e" if "override_of hist t = None"
  proof -
    from that mem have "resolve_ticker fd hist ?del t = Inl ValueError"
      by (simp add: resolve_ticker_def)
    from resolve_shares_error [OF keys this]
    obtain e' where "resolve_shares fd hist ?del (map fst tickers) (\<lambda>t d. NaN) = Inl e'" ..
    then show ?thesis
      by (simp add: init_def Let_def split: sum.splits)
  qed
  have takes: "shares_outstanding m t = fill_shares s"
    if "override_of hist t = Some s" "init fd tickers stock_index hist = Inr m" for s m
  proof -
    from that(2) obtain sh where
      res: "resolve_shares fd hist ?del (map fst tickers) (\<lambda>t d. NaN) = Inr sh"
      and sh: "shares_outstanding m = sh"
      by (rule init_Inr)
    from resolve_shares_result [OF res, of t] keys
    have "resolve_ticker fd hist ?del t = Inr (sh t)" by simp
    with that(1) mem sh show ?thesis by (simp add: resolve_ticker_def)
  qed
  from raises takes show ?thesis by blast
qed

theorem delisted_needs_override_witness:
  "(\<exists>e. init market_feed market_tickers None None = Inl e) \<and>
   (\<exists>m. init market_feed market_tickers None market_overrides = Inr m \<and>
        shares_outstanding m ''C'' = fill_shares [(737598, 40)])"
proof -
  from market_init obtain m
    where m: "init market_feed market_tickers None market_overrides = Inr m" ..
  have h1: "''C'' \<in> fst ` set market_tickers" by (simp add: market_tickers_def)
  have h2: "\<forall>d \<in> set (download_index market_feed). isnan (download_close market_feed ''C'' d)"
    by (simp add: market_feed_def)
  have n: "override_of None ''C'' = None" by (simp add: override_of_def)
  have s: "override_of market_overrides ''C'' = Some [(737598, 40)]"
    by (simp add: override_of_def market_overrides_def)
  from delisted_needs_override [OF h1 h2, of None None] n
  have "\<exists>e. init market_feed market_tickers None None = Inl e" by blast
  moreover from delisted_needs_override [OF h1 h2, of market_overrides None] s m
  have "shares_outstanding m ''C'' = fill_shares [(737598, 40)]" by blast
  ultimately show ?thesis using m by blast
qed

section \<open>Volatility without a benchmark index\<close>

text \<open>
  Claim C7, on the code. The constructor binds \<^verbatim>\<open>stock_index_data\<close> only when an index
  ticker is given; an object built without one leaves the attribute unset, and the
  volatility query, which reads the attribute to compare it with \<^verbatim>\<open>None\<close>, raises an
  AttributeError for every smoothing factor and frequency instead of returning \<^verbatim>\<open>None\<close>.
\<close>

theorem volatility_without_index_raises:
  "init fd tickers None hist_shares_outs = Inr m \<Longrightarrow>
     get_annual_volatility ewm_vol m alpha frequency = Inl AttributeError"
  by (auto simp: init_def get_annual_volatility_def Let_def split: sum.splits prod.splits)

theorem volatility_without_index_raises_witness:
  "\<exists>m. init market_feed market_tickers None market_overrides = Inr m \<and>
       get_annual_volatility (\<lambda>a s. s) m (1 / 20) (\<lambda>d. d) = Inl AttributeError"
proof -
  from market_init obtain m
    where m: "init market_feed market_tickers None market_overrides = Inr m" ..
  from volatility_without_index_raises [OF m] m show ?thesis by blast
qed

section \<open>Capitalization of a subset of tickers\<close>

text \<open>
  Claim C8, on the code. With a list of tickers the query ends in
  \<^verbatim>\<open>ret.resample(frequency).mean().ret.dropna()\<close>: it reads the attribute \<^verbatim>\<open>ret\<close> of the
  resampled series and raises, for every object, frequency and list, whether or not the
  loop before it has raised a KeyError already.
\<close>

theorem capitalization_of_subset_raises:
  "\<exists>e. get_capitalization m frequency (Some ts) = Inl e"
  by (cases "subset_sum (\<lambda>t d. fmul (p_close (data m) t d) (shares_outstanding m t d))
               (ticker_symbols m) ts (\<lambda>d. Fin 0)")
     (simp_all add: get_capitalization_def series_ret_def)

section \<open>The daily turnover\<close>



section \<open>The forward dividend yield\<close>

text \<open>
  Claim C10. A current member for which the feed reports no dividend yield is recorded
  with the yield 0. Provided its latest capitalization is a finite number, it adds nothing
  to the numerator of the forward dividend yield, which is the sum over the current members
  with a reported yield, while the denominator is the sum over every ticker whose window
  holds the last date, such a member included.
\<close>

theorem missing_yield_counts_as_zero:
  assumes "init fd tickers stock_index hist = Inr m" and "distinct (map fst tickers)"
    and "dl = last (p_index (data m))"
    and "\<forall>t \<in> set (get_current_components tickers). info_dividendYield fd t = None \<longrightarrow>
           (\<exists>c. fmul (p_close (data m) t dl) (shares_outstanding m t dl) = Fin c)"
  shows "(\<forall>t \<in> set (get_current_components tickers). info_dividendYield fd t = None \<longrightarrow>
            dividend_yield m t = Some (Fin 0)) \<and>
         forward_dividend_yield m =
           fdiv
             (fsum (concat (map (\<lambda>t. case info_dividendYield fd t of
                                        None \<Rightarrow> []
                                      | Some y \<Rightarrow>
                                          [fmul (fmul (p_close (data m) t dl)
                                                   (shares_outstanding m t dl)) (Fin y)])
                              (get_current_components tickers))))
             (fsum (map (\<lambda>(t, w). fmul (p_close (data m) t dl) (shares_outstanding m t dl))
                      (filter (\<lambda>(t, w). in_window w dl) tickers)))"
proof -
  let ?dy = "record_dividend_yields fd tickers"
  let ?yld = "\<lambda>t. case info_dividendYield fd t of None \<Rightarrow> Fin 0 | Some y \<Rightarrow> Fin y"
  from assms(1) obtain p sh cf fdy where
    b: "build_capitalization p sh ?dy tickers = Inr (cf, fdy)"
    and m: "data m = p" "shares_outstanding m = sh" "capitalization m = cf"
      "forward_dividend_yield m = fdy" "dividend_yield m = ?dy"
    by (rule init_Inr)
  have look: "?dy t = Some (?yld t)" if "t \<in> set (get_current_components tickers)" for t
    using that by (simp add: record_dividend_yields_lookup)
  from b obtain acc' where
    loop: "cap_loop p sh ?dy tickers (last (p_index p)) tickers
       (\<lparr>c_capitalization = (\<lambda>d. Fin 0), c_turnover = (\<lambda>d. Fin 0), c_ticker = Map.empty\<rparr>,
        Fin 0) = Inr acc'"
    and cf: "cf = fst acc'"
    and fdy: "fdy = fdiv (snd acc') (c_capitalization (fst acc') (last (p_index p)))"
    by (auto simp: build_capitalization_def Let_def split: list.splits sum.splits)
  have dl: "last (p_index p) = dl" using assms(3) m(1) by simp
  have num: "snd acc' =
      fsum (map (\<lambda>t. fmul (fmul (p_close p t dl) (sh t dl)) (?yld t))
              (get_current_components tickers))"
    using cap_loop_yield [OF loop look] current_components_filter [OF assms(2)]
    by (simp add: fsum_def dl)
  have "snd acc' =
      fsum (concat (map (\<lambda>t. case info_dividendYield fd t of
                                 None \<Rightarrow> []
                               | Some y \<Rightarrow> [fmul (fmul (p_close p t dl) (sh t dl)) (Fin y)])
                      (get_current_components tickers)))"
    unfolding num fsum_def
    using assms(4) m(1,2)
    by (intro zero_yield_terms [where capl = "\<lambda>t. fmul (p_close p t dl) (sh t dl)"]) simp
  moreover have "c_capitalization (fst acc') dl =
      fsum (map (\<lambda>(t, w). fmul (p_close p t dl) (sh t dl))
              (filter (\<lambda>(t, w). in_window w dl) tickers))"
    using cap_loop_capitalization [OF loop, of dl] by (simp add: fsum_def)
  ultimately have "fdy = fdiv
      (fsum (concat (map (\<lambda>t. case info_dividendYield fd t of
                                 None \<Rightarrow> []
                               | Some y \<Rightarrow> [fmul (fmul (p_close p t dl) (sh t dl)) (Fin y)])
                      (get_current_components tickers))))
      (fsum (map (\<lambda>(t, w). fmul (p_close p t dl) (sh t dl))
               (filter (\<lambda>(t, w). in_window w dl) tickers)))"
    using fdy dl by simp
  moreover have "dividend_yield m t = Some (Fin 0)"
    if "t \<in> set (get_current_components tickers)" "info_dividendYield fd t = None" for t
    using that look [OF that(1)] m(5) by simp
  ultimately show ?thesis unfolding m by simp
qed

theorem missing_yield_counts_as_zero_witness:
  "\<exists>m. init market_feed market_tickers None market_overrides = Inr m \<and>
       dividend_yield m ''B'' = Some (Fin 0) \<and>
       forward_dividend_yield m =
         fdiv (fsum [fmul (fmul (p_close (data m) ''A'' 737605)
                       (shares_outstanding m ''A'' 737605)) (Fin (2 / 100))])
              (fsum [fmul (p_close (data m) ''A'' 737605) (shares_outstanding m ''A'' 737605),
                     fmul (p_close (data m) ''B'' 737605) (shares_outstanding m ''B'' 737605)]) \<and>
       forward_dividend_yield m = Fin (1 / 100)"
proof -
  from market_init obtain m
    where m: "init market_feed market_tickers None market_overrides = Inr m" ..
  have h2: "distinct (map fst market_tickers)" by (simp add: market_tickers_def)
  have h3: "737605 = last (p_index (data m))"
    using init_index [OF m] by (simp add: market_feed_def market_index_def)
  have h4: "\<forall>t \<in> set (get_current_components market_tickers).
      info_dividendYield market_feed t = None \<longrightarrow>
      (\<exists>c. fmul (p_close (data m) t 737605) (shares_outstanding m t 737605) = Fin c)"
    using m by (auto simp: market_defs)
  have v: "forward_dividend_yield m = Fin (1 / 100)"
    using m by (auto simp: market_defs)
  from missing_yield_counts_as_zero [OF m h2 h3 h4] v m show ?thesis
    by (auto simp: market_tickers_def market_feed_def get_current_components_def in_window_def)
qed

end
